theory Spec2Isabelle
  imports Main "HOL-Library.Sublist"
begin

section \<open>Python strings and POSIX paths\<close>

text \<open>
  Python strings are modelled as \<^typ>\<open>string\<close>, a list of 8-bit characters, so a file
  name is its byte sequence. \<open>str.lower\<close> is modelled on the ASCII letters, which is
  where it acts on such a name; the case folding of code points beyond ASCII is outside
  the model.
\<close>

definition lower_char :: "char \<Rightarrow> char" where
  "lower_char c =
     (case map_of (zip ''ABCDEFGHIJKLMNOPQRSTUVWXYZ'' ''abcdefghijklmnopqrstuvwxyz'') c of
        Some l \<Rightarrow> l
      | None \<Rightarrow> c)"

definition lower :: "string \<Rightarrow> string" where
  "lower s = map lower_char s"

text \<open>\<open>s.endswith(e)\<close> for one suffix, and for a tuple of suffixes.\<close>

definition endswith1 :: "string \<Rightarrow> string \<Rightarrow> bool" where
  "endswith1 s e = (length e \<le> length s \<and> drop (length s - length e) s = e)"

definition endswith :: "string \<Rightarrow> string list \<Rightarrow> bool" where
  "endswith s es = list_ex (endswith1 s) es"

text \<open>\<open>s.rfind(c)\<close>: the index of the last occurrence of \<open>c\<close>, or \<open>-1\<close>.\<close>

definition rfind :: "string \<Rightarrow> char \<Rightarrow> int" where
  "rfind s c =
     (if c \<in> set s then int (length s - 1 - length (takeWhile (\<lambda>x. x \<noteq> c) (rev s))) else - 1)"

text \<open>
  \<open>os.path.join(a, b)\<close> of \<open>posixpath\<close>, for two arguments: an absolute \<open>b\<close> replaces
  \<open>a\<close>; otherwise one separator stands between them.
\<close>

definition os_path_join :: "string \<Rightarrow> string \<Rightarrow> string" where
  "os_path_join a b =
     (if b \<noteq> [] \<and> hd b = CHR ''/'' then b
      else if a = [] \<or> last a = CHR ''/'' then a @ b
      else a @ ''/'' @ b)"

text \<open>
  \<open>os.path.splitext(p)\<close> of \<open>posixpath\<close>: the extension starts at the last dot of the
  last path component, unless only dots precede it there.
\<close>

definition os_path_splitext :: "string \<Rightarrow> string \<times> string" where
  "os_path_splitext p =
     (let sepIndex = rfind p CHR ''/'';
          dotIndex = rfind p CHR ''.''
      in if dotIndex > sepIndex \<and>
            list_ex (\<lambda>c. c \<noteq> CHR ''.'') (drop (nat (sepIndex + 1)) (take (nat dotIndex) p))
         then (take (nat dotIndex) p, drop (nat dotIndex) p)
         else (p, []))"

text \<open>
  The directory part of a path: everything up to and including the last separator
  (the \<open>head\<close> that \<open>os.path.split\<close> and \<open>os.path.dirname\<close> start from).
\<close>

definition dir_part :: "string \<Rightarrow> string" where
  "dir_part p = take (nat (rfind p CHR ''/'' + 1)) p"

section \<open>Discovery\<close>

text \<open>
  A directory holds named entries of any kind; \<open>os.listdir\<close> returns the names of the
  immediate entries, in the order the system gives them.
\<close>

datatype entry_kind = RegularFile | Directory | OtherEntry

type_synonym dir_listing = "(string \<times> entry_kind) list"

definition os_listdir :: "dir_listing \<Rightarrow> string list" where
  "os_listdir entries = map fst entries"

definition video_extensions :: "string list" where
  "video_extensions = [''.mp4'', ''.avi'', ''.mov'', ''.mkv'', ''.wmv'', ''.flv'']"

text \<open>
  \<open>get_video_files\<close>: the loop over the listing, appending the joined path of every
  name that passes the suffix test.
\<close>

fun get_video_files_loop :: "string \<Rightarrow> string list \<Rightarrow> string list \<Rightarrow> string list" where
  "get_video_files_loop directory [] video_files = video_files"
| "get_video_files_loop directory (file # rest) video_files =
     (if endswith (lower file) video_extensions
      then get_video_files_loop directory rest (video_files @ [os_path_join directory file])
      else get_video_files_loop directory rest video_files)"

definition get_video_files :: "dir_listing \<Rightarrow> string \<Rightarrow> string list" where
  "get_video_files entries directory =
     get_video_files_loop directory (os_listdir entries) []"

text \<open>A name as a file system gives it: not empty, and without a separator.\<close>

definition entry_name_ok :: "string \<Rightarrow> bool" where
  "entry_name_ok n = (n \<noteq> [] \<and> CHR ''/'' \<notin> set n)"

section \<open>Exceptions, outcomes and the trace of a run\<close>

text \<open>
  The exceptions that occur. \<open>SystemExit\<close> is what \<open>sys.exit\<close> raises; it derives from
  \<open>BaseException\<close> only, so \<open>except Exception\<close> does not catch it. The others are
  instances of \<open>Exception\<close>: \<open>Error\<close> stands for any error an external call raises,
  with its \<open>str()\<close>.
\<close>

datatype pyexc =
    Error string
  | UnboundLocalError string
  | CalledProcessError string
  | SystemExit nat

fun is_Exception :: "pyexc \<Rightarrow> bool" where
  "is_Exception (SystemExit n) = False"
| "is_Exception e = True"

fun exc_str :: "pyexc \<Rightarrow> string" where
  "exc_str (Error m) = m"
| "exc_str (UnboundLocalError v) = ''local variable '' @ v @ '' referenced before assignment''"
| "exc_str (CalledProcessError c) = ''Command '' @ c @ '' returned non-zero exit status''"
| "exc_str (SystemExit n) = []"

datatype 'a outcome = Returns 'a | Raises pyexc

text \<open>An image held in memory; its content is opaque to the program.\<close>

type_synonym frame = "nat list"

text \<open>
  Everything the program does to its surroundings is recorded, in order, as an event:
  log records, imports, the subprocess that installs a package, and the calls to the
  video library. A log record whose text holds numbers keeps them as numbers.
\<close>

datatype level = ERROR | WARNING | INFO

datatype message =
    Text string
  | FoundVideos nat
  | ProcessingComplete nat nat nat

datatype event =
    Log level message
  | Import string
  | PipInstall string
  | CapNew string
  | CapIsOpened string
  | CapRead string
  | CapRelease string
  | ImWrite string frame

definition emitting :: "event list \<Rightarrow> 'a \<times> event list \<Rightarrow> 'a \<times> event list" where
  "emitting evs r = (fst r, evs @ snd r)"

section \<open>The surroundings of a run\<close>

text \<open>
  The video library \<open>cv2\<close> is a black box: for each call it either returns a value or
  raises. A capture object is identified by the path it was created on.
  \<open>cv_read\<close> gives the success flag and the frame of the first read of a capture;
  \<open>cv_imwrite\<close> gives the flag that \<open>cv2.imwrite\<close> returns, \<open>True\<close> when the image was
  written.
\<close>

record cv2 =
  cv_VideoCapture :: "string \<Rightarrow> unit outcome"
  cv_isOpened :: "string \<Rightarrow> bool outcome"
  cv_read :: "string \<Rightarrow> (bool \<times> frame) outcome"
  cv_imwrite :: "string \<Rightarrow> frame \<Rightarrow> bool outcome"
  cv_release :: "string \<Rightarrow> unit outcome"

text \<open>
  The Python installation: whether \<open>__import__(name)\<close> succeeds (it raises
  \<open>ImportError\<close> otherwise), and whether \<open>pip install package\<close> exits with status 0.
\<close>

record host =
  import_ok :: "string \<Rightarrow> bool"
  pip_install_ok :: "string \<Rightarrow> bool"

text \<open>The file system, as the calls of \<open>validate_directory\<close> and \<open>os.listdir\<close> see it.\<close>

record filesystem =
  os_path_exists :: "string \<Rightarrow> bool"
  os_path_isdir :: "string \<Rightarrow> bool"
  os_access_rw :: "string \<Rightarrow> bool"
  dir_entries :: "string \<Rightarrow> dir_listing"

section \<open>Dependency check and validation\<close>

definition required_packages :: "string list" where
  "required_packages = [''opencv-python'', ''tqdm'']"

text \<open>\<open>package.replace('-', '_')\<close>\<close>

definition replace_dash :: "string \<Rightarrow> string" where
  "replace_dash s = map (\<lambda>c. if c = CHR ''-'' then CHR ''_'' else c) s"

text \<open>
  \<open>check_dependencies\<close>: for each required package, try the import; on \<open>ImportError\<close> log
  and run \<open>pip install\<close> with \<open>subprocess.check_call\<close>, which raises
  \<open>CalledProcessError\<close> when pip fails.
\<close>

fun check_dependencies_loop :: "host \<Rightarrow> string list \<Rightarrow> unit outcome \<times> event list" where
  "check_dependencies_loop h [] = (Returns (), [])"
| "check_dependencies_loop h (package # rest) =
     emitting [Import (replace_dash package)]
       (if import_ok h (replace_dash package) then check_dependencies_loop h rest
        else emitting [Log INFO (Text (''Installing required package: '' @ package)),
                       PipInstall package]
               (if pip_install_ok h package then check_dependencies_loop h rest
                else (Raises (CalledProcessError (''pip install '' @ package)), [])))"

definition check_dependencies :: "host \<Rightarrow> unit outcome \<times> event list" where
  "check_dependencies h = check_dependencies_loop h required_packages"

definition validate_directory :: "filesystem \<Rightarrow> string \<Rightarrow> bool \<times> event list" where
  "validate_directory fs directory =
     (if \<not> os_path_exists fs directory
      then (False, [Log ERROR (Text (''Directory does not exist: '' @ directory))])
      else if \<not> os_path_isdir fs directory
      then (False, [Log ERROR (Text (''Path is not a directory: '' @ directory))])
      else if \<not> os_access_rw fs directory
      then (False, [Log ERROR (Text (''Insufficient permissions for directory: '' @ directory))])
      else (True, []))"

section \<open>The extractor\<close>

text \<open>
  The body of the \<open>try\<close> block of \<open>extract_first_frame\<close>. Beside the outcome it gives
  the local variable \<open>video_capture\<close> as the block leaves it: \<open>None\<close> while it is not
  bound, which is the case exactly when the constructor raised.
\<close>

definition extract_try ::
  "cv2 \<Rightarrow> string \<Rightarrow> (string option outcome \<times> string option) \<times> event list" where
  "extract_try cv video_path =
     emitting [CapNew video_path]
      (case cv_VideoCapture cv video_path of
         Raises e \<Rightarrow> ((Raises e, None), [])
       | Returns _ \<Rightarrow>
          emitting [CapIsOpened video_path]
           (case cv_isOpened cv video_path of
              Raises e \<Rightarrow> ((Raises e, Some video_path), [])
            | Returns opened \<Rightarrow>
               if \<not> opened
               then ((Returns None, Some video_path),
                     [Log ERROR (Text (''Could not open video file: '' @ video_path))])
               else
                emitting [CapRead video_path]
                 (case cv_read cv video_path of
                    Raises e \<Rightarrow> ((Raises e, Some video_path), [])
                  | Returns (success, frame) \<Rightarrow>
                     if \<not> success
                     then ((Returns None, Some video_path),
                           [Log ERROR (Text (''Could not read frame from video: '' @ video_path))])
                     else
                      (let base_name = fst (os_path_splitext video_path);
                           output_path = base_name @ ''_first_frame.png''
                       in emitting [ImWrite output_path frame]
                           (case cv_imwrite cv output_path frame of
                              Raises e \<Rightarrow> ((Raises e, Some video_path), [])
                            | Returns _ \<Rightarrow> ((Returns (Some output_path), Some video_path), []))))))"

text \<open>
  The \<open>except Exception\<close> clause: an instance of \<open>Exception\<close> is logged and turned into
  the result \<open>None\<close>; anything else passes.
\<close>

definition extract_except :: "string \<Rightarrow> string option outcome \<Rightarrow> string option outcome \<times> event list" where
  "extract_except video_path r =
     (case r of
        Returns v \<Rightarrow> (Returns v, [])
      | Raises e \<Rightarrow>
         if is_Exception e
         then (Returns None,
               [Log ERROR (Text (''Error processing '' @ video_path @ '': '' @ exc_str e))])
         else (Raises e, []))"

text \<open>
  The \<open>finally\<close> clause, \<open>video_capture.release()\<close>: reading the unbound variable raises
  \<open>UnboundLocalError\<close>; an exception raised here replaces the pending result.
\<close>

definition extract_finally ::
  "cv2 \<Rightarrow> string option \<Rightarrow> string option outcome \<Rightarrow> string option outcome \<times> event list" where
  "extract_finally cv video_capture pending =
     (case video_capture of
        None \<Rightarrow> (Raises (UnboundLocalError ''video_capture''), [])
      | Some cap \<Rightarrow>
         emitting [CapRelease cap]
          (case cv_release cv cap of
             Raises e \<Rightarrow> (Raises e, [])
           | Returns _ \<Rightarrow> (pending, [])))"

definition extract_first_frame :: "cv2 \<Rightarrow> string \<Rightarrow> string option outcome \<times> event list" where
  "extract_first_frame cv video_path =
     (let ((r, video_capture), evs) = extract_try cv video_path
      in emitting evs
          (let (r', evs') = extract_except video_path r
           in emitting evs' (extract_finally cv video_capture r')))"

section \<open>The orchestrator\<close>

text \<open>The truth value of an \<open>Optional[str]\<close>: \<open>None\<close> and the empty string are false.\<close>

fun truthy :: "string option \<Rightarrow> bool" where
  "truthy None = False"
| "truthy (Some s) = (s \<noteq> [])"

text \<open>
  The loop of \<open>main\<close> over the candidates, with its two counters. An exception that
  leaves \<open>extract_first_frame\<close> leaves the loop: nothing in \<open>main\<close> catches it.
  (The progress bar of \<open>tqdm\<close> yields the elements of the list in order.)
\<close>

fun process_videos ::
  "cv2 \<Rightarrow> string list \<Rightarrow> nat \<Rightarrow> nat \<Rightarrow> (nat \<times> nat) outcome \<times> event list" where
  "process_videos cv [] successful failed = (Returns (successful, failed), [])"
| "process_videos cv (video_file # rest) successful failed =
     (case extract_first_frame cv video_file of
        (Raises e, evs) \<Rightarrow> (Raises e, evs)
      | (Returns r, evs) \<Rightarrow>
         emitting evs
          (if truthy r then process_videos cv rest (successful + 1) failed
           else process_videos cv rest successful (failed + 1)))"

text \<open>
  The two counters of that loop as they stand when control leaves it, at its end or
  with the exception that ends it.
\<close>

fun counters_at_exit :: "cv2 \<Rightarrow> string list \<Rightarrow> nat \<Rightarrow> nat \<Rightarrow> nat \<times> nat" where
  "counters_at_exit cv [] successful failed = (successful, failed)"
| "counters_at_exit cv (video_file # rest) successful failed =
     (case fst (extract_first_frame cv video_file) of
        Raises e \<Rightarrow> (successful, failed)
      | Returns r \<Rightarrow>
         if truthy r then counters_at_exit cv rest (successful + 1) failed
         else counters_at_exit cv rest successful (failed + 1))"

text \<open>
  \<open>main\<close>, from the directory path it obtained (from \<open>sys.argv\<close> or the prompt).
  After a dependency check that returned, the import of \<open>tqdm\<close> succeeds. Both
  \<open>sys.exit\<close> calls raise \<open>SystemExit\<close>, which nothing in \<open>main\<close> catches.
\<close>

definition main :: "host \<Rightarrow> filesystem \<Rightarrow> cv2 \<Rightarrow> string \<Rightarrow> unit outcome \<times> event list" where
  "main h fs cv directory =
     (case check_dependencies h of
        (Raises e, evs) \<Rightarrow> (Raises e, evs)
      | (Returns _, evs) \<Rightarrow>
         emitting (evs @ [Import ''tqdm''])
          (let (valid, evs1) = validate_directory fs directory
           in emitting evs1
               (if \<not> valid then (Raises (SystemExit 1), [])
                else
                 (let video_files = get_video_files (dir_entries fs directory) directory
                  in if video_files = []
                     then (Raises (SystemExit 0),
                           [Log WARNING (Text (''No video files found in '' @ directory))])
                     else
                      emitting [Log INFO (FoundVideos (length video_files))]
                       (case process_videos cv video_files 0 0 of
                          (Raises e, evs2) \<Rightarrow> (Raises e, evs2)
                        | (Returns (successful, failed), evs2) \<Rightarrow>
                           (Returns (),
                            evs2 @ [Log INFO
                              (ProcessingComplete (length video_files) successful failed)]))))))"

text \<open>
  The exit status of the process: 0 when \<open>main\<close> returns, the argument of \<open>sys.exit\<close>,
  and 1 when any other exception reaches the top level.
\<close>

fun exit_status :: "unit outcome \<Rightarrow> nat" where
  "exit_status (Returns _) = 0"
| "exit_status (Raises (SystemExit n)) = n"
| "exit_status (Raises e) = 1"

section \<open>Reading a trace\<close>

text \<open>
  The decode sessions a trace creates (constructor calls that returned a capture
  object) and those it releases.
\<close>

fun created :: "cv2 \<Rightarrow> event \<Rightarrow> string list" where
  "created cv (CapNew p) = (case cv_VideoCapture cv p of Returns _ \<Rightarrow> [p] | Raises _ \<Rightarrow> [])"
| "created cv ev = []"

definition sessions_created :: "cv2 \<Rightarrow> event list \<Rightarrow> string list" where
  "sessions_created cv evs = concat (map (created cv) evs)"

fun released :: "event \<Rightarrow> string list" where
  "released (CapRelease p) = [p]"
| "released ev = []"

definition sessions_released :: "event list \<Rightarrow> string list" where
  "sessions_released evs = concat (map released evs)"

text \<open>The paths on which the extractor was entered: each entry starts with the constructor call.\<close>

fun entered :: "event \<Rightarrow> string list" where
  "entered (CapNew p) = [p]"
| "entered ev = []"

definition extractor_calls :: "event list \<Rightarrow> string list" where
  "extractor_calls evs = concat (map entered evs)"

text \<open>The record of the final summary.\<close>

fun is_summary :: "event \<Rightarrow> bool" where
  "is_summary (Log l (ProcessingComplete n s f)) = True"
| "is_summary ev = False"

fun is_Log :: "event \<Rightarrow> bool" where
  "is_Log (Log l m) = True"
| "is_Log ev = False"

text \<open>
  The image files after a trace: a call of \<open>cv2.imwrite\<close> that returns \<open>True\<close> has put
  the frame at the path, whatever was there before.
\<close>

fun write_effect :: "cv2 \<Rightarrow> (string \<rightharpoonup> frame) \<Rightarrow> event \<Rightarrow> (string \<rightharpoonup> frame)" where
  "write_effect cv files (ImWrite out fr) =
     (if cv_imwrite cv out fr = Returns True then files(out \<mapsto> fr) else files)"
| "write_effect cv files ev = files"

definition files_after :: "cv2 \<Rightarrow> (string \<rightharpoonup> frame) \<Rightarrow> event list \<Rightarrow> (string \<rightharpoonup> frame)" where
  "files_after cv files evs = foldl (write_effect cv) files evs"

text \<open>The output path that \<open>extract_first_frame\<close> derives from \<open>video_path\<close>.\<close>

definition first_frame_path :: "string \<Rightarrow> string" where
  "first_frame_path video_path = fst (os_path_splitext video_path) @ ''_first_frame.png''"

text \<open>
  What one call of the extractor on \<open>p\<close> may do: the calls on the capture of \<open>p\<close>, the
  write of the image beside \<open>p\<close>, and error records.
\<close>

definition extract_event :: "string \<Rightarrow> event \<Rightarrow> bool" where
  "extract_event p ev \<longleftrightarrow>
     ev = CapNew p \<or> ev = CapIsOpened p \<or> ev = CapRead p \<or> ev = CapRelease p \<or>
     (\<exists>fr. ev = ImWrite (first_frame_path p) fr) \<or>
     (\<exists>t. ev = Log ERROR (Text t))"

text \<open>
  What the file system contract lets a run with the given candidates do: log, import
  modules, call the video library on the capture of a candidate, and write the image of
  a candidate. Installing a package is not among them.
\<close>

fun run_io_permitted :: "string list \<Rightarrow> event \<Rightarrow> bool" where
  "run_io_permitted candidates (Log l m) = True"
| "run_io_permitted candidates (Import n) = True"
| "run_io_permitted candidates (PipInstall pkg) = False"
| "run_io_permitted candidates (CapNew p) = (p \<in> set candidates)"
| "run_io_permitted candidates (CapIsOpened p) = (p \<in> set candidates)"
| "run_io_permitted candidates (CapRead p) = (p \<in> set candidates)"
| "run_io_permitted candidates (CapRelease p) = (p \<in> set candidates)"
| "run_io_permitted candidates (ImWrite out fr) = (out \<in> set (map first_frame_path candidates))"

section \<open>A concrete directory and concrete surroundings\<close>

text \<open>
  A directory \<open>videos\<close> with two video files, a text file, a subdirectory whose name
  ends in \<open>.mkv\<close>, and a plain subdirectory; and a directory \<open>empty\<close> without entries.
  Both are readable and writable.
\<close>

definition videos_entries :: dir_listing where
  "videos_entries =
     [(''a.MP4'', RegularFile), (''b.mp4'', RegularFile), (''notes.txt'', RegularFile),
      (''clips.mkv'', Directory), (''sub'', Directory)]"

definition fs_videos :: filesystem where
  "fs_videos =
     \<lparr> os_path_exists = (\<lambda>d. d = ''videos'' \<or> d = ''empty''),
       os_path_isdir = (\<lambda>d. d = ''videos'' \<or> d = ''empty''),
       os_access_rw = (\<lambda>d. d = ''videos'' \<or> d = ''empty''),
       dir_entries = (\<lambda>d. if d = ''videos'' then videos_entries else []) \<rparr>"

text \<open>
  A video library that opens every regular file and reads a frame from it, cannot open
  the directory \<open>videos/clips.mkv\<close>, and writes every image.
\<close>

definition cv_plain :: cv2 where
  "cv_plain =
     \<lparr> cv_VideoCapture = (\<lambda>p. Returns ()),
       cv_isOpened = (\<lambda>p. Returns (p \<noteq> ''videos/clips.mkv'')),
       cv_read = (\<lambda>p. Returns (True, [1, 2, 3])),
       cv_imwrite = (\<lambda>out fr. Returns True),
       cv_release = (\<lambda>p. Returns ()) \<rparr>"

text \<open>The same, where no image can be written: \<open>cv2.imwrite\<close> returns \<open>False\<close>.\<close>

definition cv_unwritable :: cv2 where
  "cv_unwritable = cv_plain \<lparr> cv_imwrite := (\<lambda>out fr. Returns False) \<rparr>"

text \<open>The same as \<open>cv_plain\<close>, where the constructor raises on \<open>videos/a.MP4\<close>.\<close>

definition cv_ctor_raises :: cv2 where
  "cv_ctor_raises =
     cv_plain \<lparr> cv_VideoCapture :=
       (\<lambda>p. if p = ''videos/a.MP4'' then Raises (Error ''cannot convert filename'')
            else Returns ()) \<rparr>"

text \<open>
  A Python installation with \<open>tqdm\<close>, where no module is named \<open>opencv_python\<close> (the
  package \<open>opencv-python\<close> installs the module \<open>cv2\<close>); \<open>pip\<close> succeeds on the first
  host and fails on the second.
\<close>

definition host_ready :: host where
  "host_ready = \<lparr> import_ok = (\<lambda>n. n = ''tqdm''), pip_install_ok = (\<lambda>p. True) \<rparr>"

definition host_offline :: host where
  "host_offline = \<lparr> import_ok = (\<lambda>n. n = ''tqdm''), pip_install_ok = (\<lambda>p. False) \<rparr>"

section \<open>Facts about strings and paths\<close>

lemma endswith1_suffix: "endswith1 s e \<longleftrightarrow> suffix e s"
proof
  assume "endswith1 s e"
  then have "s = take (length s - length e) s @ e"
    by (metis append_take_drop_id endswith1_def)
  then show "suffix e s"
    by (metis suffixI)
next
  assume "suffix e s"
  then obtain zs where "s = zs @ e"
    by (auto simp: suffix_def)
  then show "endswith1 s e"
    by (simp add: endswith1_def)
qed

lemma endswith_iff: "endswith s es \<longleftrightarrow> (\<exists>e \<in> set es. suffix e s)"
  by (simp add: endswith_def list_ex_iff endswith1_suffix)

lemma get_video_files_loop_eq:
  "get_video_files_loop d ns acc =
     acc @ map (os_path_join d) (filter (\<lambda>n. endswith (lower n) video_extensions) ns)"
  by (induction ns arbitrary: acc) simp_all

lemma get_video_files_eq:
  "get_video_files entries d =
     map (os_path_join d)
       (filter (\<lambda>n. endswith (lower n) video_extensions) (map fst entries))"
  by (simp add: get_video_files_def os_listdir_def get_video_files_loop_eq)

lemma os_path_join_name:
  assumes "entry_name_ok n"
  shows "os_path_join d n = (if d = [] \<or> last d = CHR ''/'' then d @ n else d @ ''/'' @ n)"
proof -
  from assms have "hd n \<noteq> CHR ''/''"
    by (cases n) (auto simp: entry_name_ok_def)
  then show ?thesis
    by (simp add: os_path_join_def)
qed

lemma nested_path_not_immediate:
  assumes n: "entry_name_ok n" and s: "entry_name_ok s" and n': "entry_name_ok n'"
  shows "os_path_join d n \<noteq> os_path_join (os_path_join d s) n'"
proof
  assume eq: "os_path_join d n = os_path_join (os_path_join d s) n'"
  let ?pre = "if d = [] \<or> last d = CHR ''/'' then d else d @ ''/''"
  have ds: "os_path_join d s = ?pre @ s"
    using os_path_join_name [OF s, of d] by simp
  from s have s_ne: "s \<noteq> []" and s_last: "last s \<noteq> CHR ''/''"
    by (auto simp: entry_name_ok_def dest: last_in_set)
  have "os_path_join (?pre @ s) n' = (?pre @ s) @ ''/'' @ n'"
    using os_path_join_name [OF n', of "?pre @ s"] s_ne s_last by simp
  moreover have "os_path_join d n = ?pre @ n"
    using os_path_join_name [OF n, of d] by simp
  ultimately have "?pre @ n = ?pre @ (s @ ''/'' @ n')"
    using eq ds by simp
  then have "n = s @ ''/'' @ n'"
    by (simp only: same_append_eq)
  with n show False
    by (simp add: entry_name_ok_def)
qed

lemma os_path_join_inj:
  assumes "entry_name_ok n" and "entry_name_ok n'" and "os_path_join d n = os_path_join d n'"
  shows "n = n'"
  using assms by (simp add: os_path_join_name split: if_splits)

section \<open>Facts about paths\<close>

lemma rfind_last: "c \<notin> set post \<Longrightarrow> rfind (pre @ c # post) c = int (length pre)"
proof -
  assume notin: "c \<notin> set post"
  have "takeWhile (\<lambda>x. x \<noteq> c) (rev post @ c # rev pre) =
      rev post @ takeWhile (\<lambda>x. x \<noteq> c) (c # rev pre)"
    by (rule takeWhile_append2) (use notin in auto)
  then have "takeWhile (\<lambda>x. x \<noteq> c) (rev post @ c # rev pre) = rev post"
    by simp
  then show ?thesis
    by (simp add: rfind_def)
qed

lemma rfind_none: "c \<notin> set s \<Longrightarrow> rfind s c = - 1"
  by (simp add: rfind_def)

lemma rfind_less: "rfind s c < int (length s)"
proof (cases "c \<in> set s")
  case True
  then obtain pre post where "s = pre @ c # post" "c \<notin> set post"
    by (meson split_list_last)
  then show ?thesis by (simp add: rfind_last)
next
  case False
  then show ?thesis by (simp add: rfind_none)
qed

lemma nat_int_Suc: "nat (int n + 1) = Suc n"
  by arith

lemma dir_part_last: "CHR ''/'' \<notin> set post \<Longrightarrow> dir_part (pre @ CHR ''/'' # post) = pre @ ''/''"
  by (simp add: dir_part_def rfind_last nat_int_Suc)

lemma dir_part_none: "CHR ''/'' \<notin> set s \<Longrightarrow> dir_part s = []"
  by (simp add: dir_part_def rfind_none)

lemma splitext_append: "fst (os_path_splitext p) @ snd (os_path_splitext p) = p"
  by (simp add: os_path_splitext_def Let_def)

lemma splitext_root_take:
  "\<exists>k. fst (os_path_splitext p) = take k p \<and> nat (rfind p CHR ''/'' + 1) \<le> k"
proof (cases "snd (os_path_splitext p) = [] \<and> fst (os_path_splitext p) = p")
  case True
  have "nat (rfind p CHR ''/'' + 1) \<le> length p"
    using rfind_less [of p "CHR ''/''"] by simp
  with True show ?thesis
    by (intro exI [of _ "length p"]) simp
next
  case False
  then have "rfind p CHR ''.'' > rfind p CHR ''/''"
      and "fst (os_path_splitext p) = take (nat (rfind p CHR ''.'')) p"
    by (auto simp: os_path_splitext_def Let_def split: if_splits)
  then show ?thesis
    by (intro exI [of _ "nat (rfind p CHR ''.'')"]) simp
qed

lemma dir_part_take_append:
  assumes k: "nat (rfind p CHR ''/'' + 1) \<le> k" and sfx: "CHR ''/'' \<notin> set sfx"
  shows "dir_part (take k p @ sfx) = dir_part p"
proof (cases "CHR ''/'' \<in> set p")
  case False
  then have "CHR ''/'' \<notin> set (take k p @ sfx)"
    using sfx by (auto dest: in_set_takeD)
  with False show ?thesis
    by (simp add: dir_part_none)
next
  case True
  then obtain pre post where p: "p = pre @ CHR ''/'' # post" and post: "CHR ''/'' \<notin> set post"
    by (meson split_list_last)
  from k p post have "length pre + 1 \<le> k"
    by (simp add: rfind_last nat_int_Suc)
  then have "take k p = pre @ CHR ''/'' # take (k - length pre - 1) post"
    by (cases "k - length pre") (simp_all add: p)
  moreover have "CHR ''/'' \<notin> set (take (k - length pre - 1) post @ sfx)"
    using post sfx by (auto dest: in_set_takeD)
  ultimately have "dir_part (take k p @ sfx) = pre @ ''/''"
    using dir_part_last [of "take (k - length pre - 1) post @ sfx" pre] by simp
  then show ?thesis
    by (simp add: p dir_part_last post)
qed

lemma dir_part_first_frame_path:
  "dir_part (fst (os_path_splitext p) @ ''_first_frame.png'') = dir_part p"
proof -
  obtain k where "fst (os_path_splitext p) = take k p" "nat (rfind p CHR ''/'' + 1) \<le> k"
    using splitext_root_take by blast
  then show ?thesis
    using dir_part_take_append [of p k "''_first_frame.png''"] by simp
qed

lemma rfind_sep_dir_prefix:
  assumes D: "D = [] \<or> last D = CHR ''/''" and rest: "CHR ''/'' \<notin> set rest"
  shows "rfind (D @ rest) CHR ''/'' + 1 = int (length D)"
proof (cases "D = []")
  case True
  with rest show ?thesis by (simp add: rfind_none)
next
  case False
  with D obtain B where B: "D = B @ ''/''"
    by (metis append_butlast_last_id)
  then have "rfind (D @ rest) CHR ''/'' = int (length B)"
    using rfind_last [OF rest, of B] by simp
  with B show ?thesis
    by simp
qed

lemma splitext_ordinary_name:
  assumes name: "entry_name_ok (stem @ ''.'' @ ext)"
    and ext: "CHR ''.'' \<notin> set ext"
    and stem: "\<exists>c \<in> set stem. c \<noteq> CHR ''.''"
  shows "os_path_splitext (os_path_join d (stem @ ''.'' @ ext)) = (os_path_join d stem, ''.'' @ ext)"
proof -
  let ?D = "if d = [] \<or> last d = CHR ''/'' then d else d @ ''/''"
  let ?p = "?D @ stem @ ''.'' @ ext"
  from name stem have stem_ok: "entry_name_ok stem"
    by (auto simp: entry_name_ok_def)
  have p: "os_path_join d (stem @ ''.'' @ ext) = ?p"
    using os_path_join_name [OF name, of d] by simp
  have root: "os_path_join d stem = ?D @ stem"
    using os_path_join_name [OF stem_ok, of d] by simp
  have D: "?D = [] \<or> last ?D = CHR ''/''"
    by simp
  from name have "CHR ''/'' \<notin> set (stem @ ''.'' @ ext)"
    by (simp add: entry_name_ok_def)
  from rfind_sep_dir_prefix [OF D this]
  have sep: "rfind ?p CHR ''/'' + 1 = int (length ?D)" .
  have "rfind ((?D @ stem) @ CHR ''.'' # ext) CHR ''.'' = int (length (?D @ stem))"
    using ext by (rule rfind_last)
  then have dot: "rfind ?p CHR ''.'' = int (length ?D + length stem)"
    by simp
  have take_p: "take (length ?D + length stem) ?p = ?D @ stem"
    and drop_p: "drop (length ?D + length stem) ?p = ''.'' @ ext"
    by simp_all
  have "drop (length ?D) (?D @ stem) = stem"
    by simp
  with stem have scan: "list_ex (\<lambda>c. c \<noteq> CHR ''.'') (drop (length ?D) (?D @ stem))"
    by (simp only: list_ex_iff)
  have sep': "nat (rfind ?p CHR ''/'' + 1) = length ?D"
    using sep by simp
  have gt: "rfind ?p CHR ''.'' > rfind ?p CHR ''/''"
    using sep dot by linarith
  have "os_path_splitext ?p = (?D @ stem, ''.'' @ ext)"
    unfolding os_path_splitext_def Let_def
    using gt scan sep' dot take_p drop_p by simp
  with p root show ?thesis
    by simp
qed

section \<open>Facts about the extractor and the loop\<close>

lemmas extract_defs = extract_first_frame_def extract_try_def extract_except_def
  extract_finally_def emitting_def Let_def

lemma extract_result_path:
  "fst (extract_first_frame cv p) = Returns (Some out) \<Longrightarrow> out = first_frame_path p"
  by (auto simp: extract_defs first_frame_path_def
      split: outcome.splits prod.splits option.splits if_splits)

lemma extract_success:
  assumes "cv_VideoCapture cv p = Returns ()" "cv_isOpened cv p = Returns True"
    "cv_read cv p = Returns (True, fr)" "cv_imwrite cv (first_frame_path p) fr = Returns b"
    "cv_release cv p = Returns ()"
  shows "extract_first_frame cv p =
    (Returns (Some (first_frame_path p)),
     [CapNew p, CapIsOpened p, CapRead p, ImWrite (first_frame_path p) fr, CapRelease p])"
  using assms by (simp add: extract_defs first_frame_path_def)

lemma extract_events: "ev \<in> set (snd (extract_first_frame cv p)) \<Longrightarrow> extract_event p ev"
  by (auto simp: extract_defs extract_event_def first_frame_path_def
      split: outcome.splits prod.splits option.splits if_splits)

lemma process_videos_tally:
  "fst (process_videos cv files s0 f0) = Returns (s, f) \<Longrightarrow> s + f = s0 + f0 + length files"
proof (induction files arbitrary: s0 f0)
  case Nil
  then show ?case by simp
next
  case (Cons p ps)
  then show ?case
    by (fastforce simp: emitting_def split: prod.splits outcome.splits if_splits)
qed

lemma process_videos_Cons_events:
  "set (snd (process_videos cv (p # ps) s0 f0)) \<subseteq>
     set (snd (extract_first_frame cv p)) \<union>
     set (snd (process_videos cv ps (s0 + 1) f0)) \<union>
     set (snd (process_videos cv ps s0 (f0 + 1)))"
  by (auto simp: emitting_def split: prod.splits outcome.splits if_splits)

lemma process_videos_events:
  "ev \<in> set (snd (process_videos cv files s0 f0)) \<Longrightarrow> \<exists>p \<in> set files. extract_event p ev"
proof (induction files arbitrary: s0 f0)
  case Nil
  then show ?case by simp
next
  case (Cons p ps)
  from Cons.prems process_videos_Cons_events [of cv p ps s0 f0]
  consider "ev \<in> set (snd (extract_first_frame cv p))"
    | "ev \<in> set (snd (process_videos cv ps (s0 + 1) f0))"
    | "ev \<in> set (snd (process_videos cv ps s0 (f0 + 1)))"
    by blast
  then show ?case
  proof cases
    case 1
    then show ?thesis by (auto dest: extract_events)
  next
    case 2
    then show ?thesis using Cons.IH by auto
  next
    case 3
    then show ?thesis using Cons.IH by auto
  qed
qed

section \<open>Facts about a whole run\<close>

lemma extractor_calls_extract: "extractor_calls (snd (extract_first_frame cv p)) = [p]"
  by (auto simp: extract_defs extractor_calls_def
      split: outcome.splits prod.splits option.splits if_splits)

lemma extractor_calls_append: "extractor_calls (xs @ ys) = extractor_calls xs @ extractor_calls ys"
  by (simp add: extractor_calls_def)

text \<open>
  As long as every call of the extractor returns, the loop passes every candidate to
  it, once and in order, and completes.
\<close>

lemma process_videos_calls:
  "(\<And>p. p \<in> set files \<Longrightarrow> \<exists>r. fst (extract_first_frame cv p) = Returns r) \<Longrightarrow>
   extractor_calls (snd (process_videos cv files s0 f0)) = files \<and>
   (\<exists>s f. fst (process_videos cv files s0 f0) = Returns (s, f))"
proof (induction files arbitrary: s0 f0)
  case Nil
  then show ?case by (simp add: extractor_calls_def)
next
  case (Cons p ps)
  from Cons.prems [of p] obtain r evs where ex: "extract_first_frame cv p = (Returns r, evs)"
    by (cases "extract_first_frame cv p") auto
  then have calls: "extractor_calls evs = [p]"
    using extractor_calls_extract [of cv p] by simp
  have IH: "extractor_calls (snd (process_videos cv ps s f)) = ps \<and>
      (\<exists>s' f'. fst (process_videos cv ps s f) = Returns (s', f'))" for s f
    using Cons.IH [of s f] Cons.prems by simp
  show ?case
  proof (cases "truthy r")
    case True
    with ex calls IH [of "s0 + 1" f0] show ?thesis
      by (simp add: emitting_def extractor_calls_append)
  next
    case False
    with ex calls IH [of s0 "f0 + 1"] show ?thesis
      by (simp add: emitting_def extractor_calls_append)
  qed
qed

text \<open>
  Once the capture object exists and \<open>release\<close> returns, every error that a step
  raises is caught: the extractor returns.
\<close>

lemma extract_returns_after_construction:
  assumes "cv_VideoCapture cv p = Returns u" and "cv_release cv p = Returns v"
    and "\<And>e. cv_isOpened cv p = Raises e \<Longrightarrow> is_Exception e"
    and "\<And>e. cv_read cv p = Raises e \<Longrightarrow> is_Exception e"
    and "\<And>e fr. cv_imwrite cv (first_frame_path p) fr = Raises e \<Longrightarrow> is_Exception e"
  shows "\<exists>r. fst (extract_first_frame cv p) = Returns r"
  using assms
  by (auto simp: extract_defs first_frame_path_def
      split: outcome.splits prod.splits option.splits if_splits)

lemma check_dependencies_loop_raises:
  "fst (check_dependencies_loop h pkgs) = Raises e \<Longrightarrow> \<exists>c. e = CalledProcessError c"
  by (induction pkgs) (auto simp: emitting_def split: if_splits)

lemma check_dependencies_loop_events:
  "ev \<in> set (snd (check_dependencies_loop h pkgs)) \<Longrightarrow>
     (\<exists>pkg \<in> set pkgs. ev = Import (replace_dash pkg) \<or>
        (\<not> import_ok h (replace_dash pkg) \<and>
          (ev = Log INFO (Text (''Installing required package: '' @ pkg)) \<or>
           ev = PipInstall pkg)))"
  by (induction pkgs) (auto simp: emitting_def split: if_splits)

lemma validate_directory_events:
  "ev \<in> set (snd (validate_directory fs d)) \<Longrightarrow> \<exists>t. ev = Log ERROR (Text t)"
  by (auto simp: validate_directory_def split: if_splits)

text \<open>Every event of a run, by the phase that emits it.\<close>

lemma main_event_cases:
  assumes "ev \<in> set (snd (main h fs cv d))"
  shows "(\<exists>pkg \<in> set required_packages. ev = Import (replace_dash pkg) \<or>
            (\<not> import_ok h (replace_dash pkg) \<and>
              (ev = Log INFO (Text (''Installing required package: '' @ pkg)) \<or>
               ev = PipInstall pkg)))
       \<or> ev = Import ''tqdm''
       \<or> (\<exists>t. ev = Log ERROR (Text t))
       \<or> ev = Log WARNING (Text (''No video files found in '' @ d))
       \<or> ev = Log INFO (FoundVideos (length (get_video_files (dir_entries fs d) d)))
       \<or> (\<exists>p \<in> set (get_video_files (dir_entries fs d) d). extract_event p ev)
       \<or> (\<exists>s f. ev = Log INFO (ProcessingComplete (length (get_video_files (dir_entries fs d) d)) s f)
            \<and> fst (process_videos cv (get_video_files (dir_entries fs d) d) 0 0) = Returns (s, f))"
proof -
  let ?files = "get_video_files (dir_entries fs d) d"
  obtain r0 evs0 where deps: "check_dependencies h = (r0, evs0)"
    by (cases "check_dependencies h")
  obtain valid evs1 where val: "validate_directory fs d = (valid, evs1)"
    by (cases "validate_directory fs d")
  obtain r2 evs2 where loop: "process_videos cv ?files 0 0 = (r2, evs2)"
    by (cases "process_videos cv ?files 0 0")
  have "ev \<in> set evs0 \<or> ev = Import ''tqdm'' \<or> ev \<in> set evs1
      \<or> ev = Log WARNING (Text (''No video files found in '' @ d))
      \<or> ev = Log INFO (FoundVideos (length ?files))
      \<or> ev \<in> set evs2
      \<or> (\<exists>s f. ev = Log INFO (ProcessingComplete (length ?files) s f) \<and> r2 = Returns (s, f))"
    using assms deps val loop
    by (auto simp: main_def emitting_def Let_def split: outcome.splits prod.splits if_splits)
  moreover have "ev \<in> set evs0 \<Longrightarrow> ?thesis"
    using check_dependencies_loop_events [of ev h required_packages] deps
    by (simp add: check_dependencies_def)
  moreover have "ev \<in> set evs1 \<Longrightarrow> ?thesis"
    using validate_directory_events [of ev fs d] val by auto
  moreover have "ev \<in> set evs2 \<Longrightarrow> ?thesis"
    using process_videos_events [of ev cv ?files 0 0] loop by auto
  ultimately show ?thesis
    using loop by auto
qed

text \<open>
  The sessions that a call of the extractor releases are those it created: once the
  constructor gave a capture object, \<open>release\<close> is called on it once, as the last
  event of the call; when the constructor raises, no session was created.
\<close>

lemma sessions_released_are_created:
  "sessions_released (snd (extract_first_frame cv p)) =
     sessions_created cv (snd (extract_first_frame cv p))
   \<and> (\<forall>u. cv_VideoCapture cv p = Returns u \<longrightarrow>
        sessions_released (snd (extract_first_frame cv p)) = [p] \<and>
        last (snd (extract_first_frame cv p)) = CapRelease p)
   \<and> (\<forall>e. cv_VideoCapture cv p = Raises e \<longrightarrow>
        sessions_created cv (snd (extract_first_frame cv p)) = [])"
  by (auto simp: extract_defs sessions_released_def sessions_created_def
      split: outcome.splits prod.splits option.splits if_splits)

text \<open>When the loop completes, the counters at its exit are the ones it returns, and they
  add up to the number of candidates; every summary of a run carries such counts.\<close>

lemma counters_at_exit_returned:
  "fst (process_videos cv files s0 f0) = Returns (s, f) \<Longrightarrow> counters_at_exit cv files s0 f0 = (s, f)"
proof (induction files arbitrary: s0 f0)
  case Nil
  then show ?case by simp
next
  case (Cons p ps)
  then show ?case
    by (fastforce simp: emitting_def split: prod.splits outcome.splits if_splits)
qed

lemma summary_adds_up:
  assumes "Log l (ProcessingComplete tot s f) \<in> set (snd (main h fs cv d))"
  shows "s + f = tot" and "tot = length (get_video_files (dir_entries fs d) d)"
proof -
  from main_event_cases [OF assms]
  have "tot = length (get_video_files (dir_entries fs d) d) \<and>
      fst (process_videos cv (get_video_files (dir_entries fs d) d) 0 0) = Returns (s, f)"
    by (auto simp: extract_event_def)
  then show "s + f = tot" and "tot = length (get_video_files (dir_entries fs d) d)"
    using process_videos_tally [of cv "get_video_files (dir_entries fs d) d" 0 0 s f]
    by simp_all
qed

section \<open>The concrete runs, evaluated\<close>

lemmas discovery_defs = get_video_files_def os_listdir_def endswith_def endswith1_def
  lower_def lower_char_def video_extensions_def os_path_join_def

lemmas path_defs = first_frame_path_def os_path_splitext_def rfind_def

lemmas surroundings_defs = fs_videos_def videos_entries_def cv_plain_def cv_unwritable_def
  cv_ctor_raises_def host_ready_def host_offline_def

lemmas run_defs = main_def check_dependencies_def required_packages_def replace_dash_def
  validate_directory_def

lemma videos_candidates:
  "get_video_files (dir_entries fs_videos ''videos'') ''videos'' =
     [''videos/a.MP4'', ''videos/b.mp4'', ''videos/clips.mkv'']"
  by (simp add: discovery_defs surroundings_defs)

lemma videos_output_paths:
  "first_frame_path ''videos/a.MP4'' = ''videos/a_first_frame.png''"
  "first_frame_path ''videos/b.mp4'' = ''videos/b_first_frame.png''"
  by (simp_all add: path_defs)

lemma dependencies_ready:
  "check_dependencies host_ready =
     (Returns (),
      [Import ''opencv_python'',
       Log INFO (Text ''Installing required package: opencv-python''),
       PipInstall ''opencv-python'', Import ''tqdm''])"
  by (simp add: run_defs surroundings_defs emitting_def)

lemma dependencies_offline:
  "check_dependencies host_offline =
     (Raises (CalledProcessError ''pip install opencv-python''),
      [Import ''opencv_python'',
       Log INFO (Text ''Installing required package: opencv-python''),
       PipInstall ''opencv-python''])"
  by (simp add: run_defs surroundings_defs emitting_def)

lemma validate_videos:
  "validate_directory fs_videos ''videos'' = (True, [])"
  "validate_directory fs_videos ''empty'' = (True, [])"
  "validate_directory fs_videos ''nowhere'' =
     (False, [Log ERROR (Text ''Directory does not exist: nowhere'')])"
  by (simp_all add: validate_directory_def surroundings_defs)

lemma extract_plain_a:
  "extract_first_frame cv_plain ''videos/a.MP4'' =
     (Returns (Some ''videos/a_first_frame.png''),
      [CapNew ''videos/a.MP4'', CapIsOpened ''videos/a.MP4'', CapRead ''videos/a.MP4'',
       ImWrite ''videos/a_first_frame.png'' [1, 2, 3], CapRelease ''videos/a.MP4''])"
  using extract_success [of cv_plain "''videos/a.MP4''" "[1, 2, 3]" True]
  by (simp add: videos_output_paths cv_plain_def)

lemma extract_plain_b:
  "extract_first_frame cv_plain ''videos/b.mp4'' =
     (Returns (Some ''videos/b_first_frame.png''),
      [CapNew ''videos/b.mp4'', CapIsOpened ''videos/b.mp4'', CapRead ''videos/b.mp4'',
       ImWrite ''videos/b_first_frame.png'' [1, 2, 3], CapRelease ''videos/b.mp4''])"
  using extract_success [of cv_plain "''videos/b.mp4''" "[1, 2, 3]" True]
  by (simp add: videos_output_paths cv_plain_def)

lemma extract_plain_clips:
  "extract_first_frame cv_plain ''videos/clips.mkv'' =
     (Returns None,
      [CapNew ''videos/clips.mkv'', CapIsOpened ''videos/clips.mkv'',
       Log ERROR (Text ''Could not open video file: videos/clips.mkv''),
       CapRelease ''videos/clips.mkv''])"
  by (simp add: extract_defs cv_plain_def)

lemma process_plain:
  "process_videos cv_plain [''videos/a.MP4'', ''videos/b.mp4'', ''videos/clips.mkv''] 0 0 =
     (Returns (2, 1),
      [CapNew ''videos/a.MP4'', CapIsOpened ''videos/a.MP4'', CapRead ''videos/a.MP4'',
       ImWrite ''videos/a_first_frame.png'' [1, 2, 3], CapRelease ''videos/a.MP4'',
       CapNew ''videos/b.mp4'', CapIsOpened ''videos/b.mp4'', CapRead ''videos/b.mp4'',
       ImWrite ''videos/b_first_frame.png'' [1, 2, 3], CapRelease ''videos/b.mp4'',
       CapNew ''videos/clips.mkv'', CapIsOpened ''videos/clips.mkv'',
       Log ERROR (Text ''Could not open video file: videos/clips.mkv''),
       CapRelease ''videos/clips.mkv''])"
  by (simp add: extract_plain_a extract_plain_b extract_plain_clips emitting_def)

lemma main_plain:
  "main host_ready fs_videos cv_plain ''videos'' =
     (Returns (),
      [Import ''opencv_python'',
       Log INFO (Text ''Installing required package: opencv-python''),
       PipInstall ''opencv-python'', Import ''tqdm'', Import ''tqdm'',
       Log INFO (FoundVideos 3),
       CapNew ''videos/a.MP4'', CapIsOpened ''videos/a.MP4'', CapRead ''videos/a.MP4'',
       ImWrite ''videos/a_first_frame.png'' [1, 2, 3], CapRelease ''videos/a.MP4'',
       CapNew ''videos/b.mp4'', CapIsOpened ''videos/b.mp4'', CapRead ''videos/b.mp4'',
       ImWrite ''videos/b_first_frame.png'' [1, 2, 3], CapRelease ''videos/b.mp4'',
       CapNew ''videos/clips.mkv'', CapIsOpened ''videos/clips.mkv'',
       Log ERROR (Text ''Could not open video file: videos/clips.mkv''),
       CapRelease ''videos/clips.mkv'',
       Log INFO (ProcessingComplete 3 2 1)])"
  by (simp add: main_def dependencies_ready validate_videos videos_candidates process_plain
      emitting_def del: process_videos.simps)

lemma extract_ctor_raises_a:
  "extract_first_frame cv_ctor_raises ''videos/a.MP4'' =
     (Raises (UnboundLocalError ''video_capture''),
      [CapNew ''videos/a.MP4'',
       Log ERROR (Text ''Error processing videos/a.MP4: cannot convert filename'')])"
  by (simp add: extract_defs cv_ctor_raises_def cv_plain_def)

lemma main_ctor_raises:
  "main host_ready fs_videos cv_ctor_raises ''videos'' =
     (Raises (UnboundLocalError ''video_capture''),
      [Import ''opencv_python'',
       Log INFO (Text ''Installing required package: opencv-python''),
       PipInstall ''opencv-python'', Import ''tqdm'', Import ''tqdm'',
       Log INFO (FoundVideos 3),
       CapNew ''videos/a.MP4'',
       Log ERROR (Text ''Error processing videos/a.MP4: cannot convert filename'')])"
  by (simp add: main_def dependencies_ready validate_videos videos_candidates
      extract_ctor_raises_a emitting_def)

section \<open>The claims\<close>

text \<open>
  C1 says that a file whose session opens and yields a frame, but whose image cannot be
  encoded at the output path, is recorded as a failure. \<open>cv2.imwrite\<close> reports such a
  failure by returning \<open>False\<close>, and \<open>extract_first_frame\<close> discards the flag: on
  \<open>videos/b.mp4\<close>, with a library that opens the file, reads a frame and returns
  \<open>False\<close> from \<open>imwrite\<close>, the extractor returns the output path, and the loop counts
  the file as successful.
\<close>

theorem encode_failure_counted_as_success:
  "cv_isOpened cv_unwritable ''videos/b.mp4'' = Returns True
   \<and> cv_read cv_unwritable ''videos/b.mp4'' = Returns (True, [1, 2, 3])
   \<and> cv_imwrite cv_unwritable ''videos/b_first_frame.png'' [1, 2, 3] = Returns False
   \<and> extract_first_frame cv_unwritable ''videos/b.mp4'' =
        (Returns (Some ''videos/b_first_frame.png''),
         [CapNew ''videos/b.mp4'', CapIsOpened ''videos/b.mp4'', CapRead ''videos/b.mp4'',
          ImWrite ''videos/b_first_frame.png'' [1, 2, 3], CapRelease ''videos/b.mp4''])
   \<and> fst (process_videos cv_unwritable [''videos/b.mp4''] 0 0) = Returns (1, 0)"
proof -
  have ex: "extract_first_frame cv_unwritable ''videos/b.mp4'' =
        (Returns (Some ''videos/b_first_frame.png''),
         [CapNew ''videos/b.mp4'', CapIsOpened ''videos/b.mp4'', CapRead ''videos/b.mp4'',
          ImWrite ''videos/b_first_frame.png'' [1, 2, 3], CapRelease ''videos/b.mp4''])"
    using extract_success [of cv_unwritable "''videos/b.mp4''" "[1, 2, 3]" False]
    by (simp add: videos_output_paths cv_unwritable_def cv_plain_def)
  then have "fst (process_videos cv_unwritable [''videos/b.mp4''] 0 0) = Returns (1, 0)"
    by (simp add: emitting_def)
  with ex show ?thesis
    by (simp add: cv_unwritable_def cv_plain_def)
qed

text \<open>
  C2 says that at the end of every run that reaches the processing phase the number of
  successful extractions plus the number of failed ones equals the number of discovered
  candidates. In the directory \<open>videos\<close>, with a library whose constructor raises on the
  first of the three candidates, the run reaches the loop and leaves it with
  \<open>UnboundLocalError\<close>: both counters stand at zero against three candidates, and no
  summary is logged.
\<close>

theorem tally_short_of_total_after_escape:
  "get_video_files (dir_entries fs_videos ''videos'') ''videos'' =
     [''videos/a.MP4'', ''videos/b.mp4'', ''videos/clips.mkv'']
   \<and> Log INFO (FoundVideos 3) \<in> set (snd (main host_ready fs_videos cv_ctor_raises ''videos''))
   \<and> fst (process_videos cv_ctor_raises
          [''videos/a.MP4'', ''videos/b.mp4'', ''videos/clips.mkv''] 0 0) =
        Raises (UnboundLocalError ''video_capture'')
   \<and> counters_at_exit cv_ctor_raises
          [''videos/a.MP4'', ''videos/b.mp4'', ''videos/clips.mkv''] 0 0 = (0, 0)
   \<and> fst (main host_ready fs_videos cv_ctor_raises ''videos'') =
        Raises (UnboundLocalError ''video_capture'')
   \<and> \<not> list_ex is_summary (snd (main host_ready fs_videos cv_ctor_raises ''videos''))"
  by (simp add: main_ctor_raises videos_candidates extract_ctor_raises_a)


text \<open>
  C4 says that no error raised while one file is processed leaves
  \<open>extract_first_frame\<close>. When the constructor \<open>cv2.VideoCapture\<close> raises, the handler
  logs the error and returns \<open>None\<close>, but the \<open>finally\<close> clause then reads
  \<open>video_capture\<close>, which was never bound: \<open>UnboundLocalError\<close> replaces the result and
  leaves the function.
\<close>

theorem constructor_error_escapes:
  "cv_VideoCapture cv_ctor_raises ''videos/a.MP4'' = Raises (Error ''cannot convert filename'')
   \<and> is_Exception (Error ''cannot convert filename'')
   \<and> extract_first_frame cv_ctor_raises ''videos/a.MP4'' =
        (Raises (UnboundLocalError ''video_capture''),
         [CapNew ''videos/a.MP4'',
          Log ERROR (Text ''Error processing videos/a.MP4: cannot convert filename'')])"
  by (simp add: extract_defs cv_ctor_raises_def cv_plain_def)

text \<open>
  C5 says that the exit status is non-zero exactly when the validation of the directory
  fails. The dependency check comes first: a host on which \<open>pip install\<close> fails ends
  the run with \<open>CalledProcessError\<close>, so the status is 1 although the directory is
  valid.
\<close>

theorem pip_failure_exit_status:
  "fst (validate_directory fs_videos ''videos'')
   \<and> fst (main host_offline fs_videos cv_plain ''videos'') =
        Raises (CalledProcessError ''pip install opencv-python'')
   \<and> exit_status (fst (main host_offline fs_videos cv_plain ''videos'')) = 1"
  by (simp add: main_def dependencies_offline validate_videos)

text \<open>
  C5, amended: the exit status is 1 when the dependency check fails and when the
  validation of the directory fails; it is 0 when discovery finds no candidate and when
  the processing pass completes, whatever the counts of successful and failed files.
  So among the runs whose dependency check succeeds and that end in one of these ways,
  the status is non-zero exactly when validation fails.
\<close>

theorem exit_status_by_phase:
  "(fst (check_dependencies h) \<noteq> Returns () \<longrightarrow> exit_status (fst (main h fs cv d)) = 1)
   \<and> (fst (check_dependencies h) = Returns () \<longrightarrow>
        (\<not> fst (validate_directory fs d) \<longrightarrow> exit_status (fst (main h fs cv d)) = 1)
      \<and> (fst (validate_directory fs d) \<and> get_video_files (dir_entries fs d) d = [] \<longrightarrow>
           exit_status (fst (main h fs cv d)) = 0)
      \<and> (fst (validate_directory fs d) \<and>
           fst (process_videos cv (get_video_files (dir_entries fs d) d) 0 0) =
             Returns (successful, failed) \<longrightarrow>
           exit_status (fst (main h fs cv d)) = 0))"
proof -
  obtain r0 evs0 where deps: "check_dependencies h = (r0, evs0)"
    by (cases "check_dependencies h")
  obtain valid evs1 where val: "validate_directory fs d = (valid, evs1)"
    by (cases "validate_directory fs d")
  show ?thesis
  proof (cases r0)
    case (Raises e)
    with deps obtain c where "e = CalledProcessError c"
      using check_dependencies_loop_raises [of h required_packages e]
      by (auto simp: check_dependencies_def)
    with Raises deps show ?thesis
      by (simp add: main_def)
  next
    case (Returns u)
    with deps val show ?thesis
      by (auto simp: main_def emitting_def Let_def
          split: outcome.splits prod.splits if_splits)
  qed
qed

theorem exit_status_by_phase_witness:
  "fst (check_dependencies host_offline) \<noteq> Returns ()
   \<and> exit_status (fst (main host_offline fs_videos cv_plain ''videos'')) = 1
   \<and> fst (check_dependencies host_ready) = Returns ()
   \<and> \<not> fst (validate_directory fs_videos ''nowhere'')
   \<and> exit_status (fst (main host_ready fs_videos cv_plain ''nowhere'')) = 1
   \<and> fst (validate_directory fs_videos ''empty'')
   \<and> get_video_files (dir_entries fs_videos ''empty'') ''empty'' = []
   \<and> exit_status (fst (main host_ready fs_videos cv_plain ''empty'')) = 0
   \<and> fst (validate_directory fs_videos ''videos'')
   \<and> fst (process_videos cv_plain (get_video_files (dir_entries fs_videos ''videos'') ''videos'') 0 0)
        = Returns (2, 1)
   \<and> exit_status (fst (main host_ready fs_videos cv_plain ''videos'')) = 0"
proof -
  have offline: "fst (check_dependencies host_offline) \<noteq> Returns ()"
    by (simp add: dependencies_offline)
  have ready: "fst (check_dependencies host_ready) = Returns ()"
    by (simp add: dependencies_ready)
  have nowhere: "\<not> fst (validate_directory fs_videos ''nowhere'')"
    and empty: "fst (validate_directory fs_videos ''empty'')"
    and videos: "fst (validate_directory fs_videos ''videos'')"
    by (simp_all add: validate_videos)
  have none: "get_video_files (dir_entries fs_videos ''empty'') ''empty'' = []"
    by (simp add: get_video_files_def os_listdir_def fs_videos_def)
  have pass: "fst (process_videos cv_plain
      (get_video_files (dir_entries fs_videos ''videos'') ''videos'') 0 0) = Returns (2, 1)"
    by (simp add: videos_candidates process_plain del: process_videos.simps)
  from exit_status_by_phase [of host_offline fs_videos cv_plain "''videos''"] offline
  have "exit_status (fst (main host_offline fs_videos cv_plain ''videos'')) = 1"
    by blast
  moreover from exit_status_by_phase [of host_ready fs_videos cv_plain "''nowhere''"] ready nowhere
  have "exit_status (fst (main host_ready fs_videos cv_plain ''nowhere'')) = 1"
    by blast
  moreover from exit_status_by_phase [of host_ready fs_videos cv_plain "''empty''"] ready empty none
  have "exit_status (fst (main host_ready fs_videos cv_plain ''empty'')) = 0"
    by blast
  moreover from exit_status_by_phase [of host_ready fs_videos cv_plain "''videos''" 2 1]
      ready videos pass
  have "exit_status (fst (main host_ready fs_videos cv_plain ''videos'')) = 0"
    by blast
  ultimately show ?thesis
    using offline ready nowhere empty videos none pass by blast
qed

text \<open>
  C6: every path that discovery returns is the join of the directory with the name of
  one of its immediate entries, and the lowercase of that name ends in one of
  \<open>.mp4 .avi .mov .mkv .wmv .flv\<close>; no path of an entry of a subdirectory is returned
  (the scan is not recursive).
\<close>

theorem discovery_only_video_names_nonrecursive:
  "(\<forall>p \<in> set (get_video_files entries d).
      \<exists>n \<in> set (os_listdir entries). p = os_path_join d n \<and>
        (\<exists>e \<in> {''.mp4'', ''.avi'', ''.mov'', ''.mkv'', ''.wmv'', ''.flv''}. suffix e (lower n)))
   \<and> ((\<forall>n \<in> set (os_listdir entries). entry_name_ok n) \<longrightarrow>
      (\<forall>s \<in> set (os_listdir entries). \<forall>n'. entry_name_ok n' \<longrightarrow>
         os_path_join (os_path_join d s) n' \<notin> set (get_video_files entries d)))"
proof (intro conjI ballI impI allI)
  fix p assume "p \<in> set (get_video_files entries d)"
  then obtain n where n: "n \<in> set (map fst entries)" "p = os_path_join d n"
      "endswith (lower n) video_extensions"
    by (auto simp: get_video_files_eq)
  from n(3) have "\<exists>e \<in> {''.mp4'', ''.avi'', ''.mov'', ''.mkv'', ''.wmv'', ''.flv''}. suffix e (lower n)"
    by (simp add: endswith_iff video_extensions_def)
  with n(1,2) show "\<exists>n \<in> set (os_listdir entries). p = os_path_join d n \<and>
      (\<exists>e \<in> {''.mp4'', ''.avi'', ''.mov'', ''.mkv'', ''.wmv'', ''.flv''}. suffix e (lower n))"
    by (auto simp: os_listdir_def)
next
  fix s n'
  assume ok: "\<forall>n \<in> set (os_listdir entries). entry_name_ok n"
    and s: "s \<in> set (os_listdir entries)" and n': "entry_name_ok n'"
  show "os_path_join (os_path_join d s) n' \<notin> set (get_video_files entries d)"
  proof
    assume "os_path_join (os_path_join d s) n' \<in> set (get_video_files entries d)"
    then obtain n where "n \<in> set (os_listdir entries)"
        "os_path_join (os_path_join d s) n' = os_path_join d n"
      by (auto simp: get_video_files_eq os_listdir_def)
    with ok s n' nested_path_not_immediate [of n s n' d] show False
      by auto
  qed
qed

theorem discovery_only_video_names_nonrecursive_witness:
  "list_all entry_name_ok (os_listdir videos_entries)
   \<and> get_video_files videos_entries ''videos'' =
       [''videos/a.MP4'', ''videos/b.mp4'', ''videos/clips.mkv'']
   \<and> os_path_join (os_path_join ''videos'' ''sub'') ''c.mp4'' = ''videos/sub/c.mp4''
   \<and> ''videos/sub/c.mp4'' \<notin> set (get_video_files videos_entries ''videos'')
   \<and> (\<exists>n \<in> set (os_listdir videos_entries). ''videos/a.MP4'' = os_path_join ''videos'' n \<and>
        (\<exists>e \<in> {''.mp4'', ''.avi'', ''.mov'', ''.mkv'', ''.wmv'', ''.flv''}. suffix e (lower n)))"
proof -
  have names: "\<forall>n \<in> set (os_listdir videos_entries). entry_name_ok n"
    by (simp add: os_listdir_def videos_entries_def entry_name_ok_def)
  have found: "get_video_files videos_entries ''videos'' =
      [''videos/a.MP4'', ''videos/b.mp4'', ''videos/clips.mkv'']"
    by (simp add: get_video_files_def os_listdir_def videos_entries_def endswith_def
        endswith1_def lower_def lower_char_def video_extensions_def os_path_join_def)
  have sub: "''sub'' \<in> set (os_listdir videos_entries)" and c: "entry_name_ok ''c.mp4''"
    by (simp_all add: os_listdir_def videos_entries_def entry_name_ok_def)
  have joined: "os_path_join (os_path_join ''videos'' ''sub'') ''c.mp4'' = ''videos/sub/c.mp4''"
    by (simp add: os_path_join_def)
  have a: "''videos/a.MP4'' \<in> set (get_video_files videos_entries ''videos'')"
    by (simp add: found)
  note inst = discovery_only_video_names_nonrecursive [of videos_entries "''videos''"]
  from inst names sub c
  have "os_path_join (os_path_join ''videos'' ''sub'') ''c.mp4''
      \<notin> set (get_video_files videos_entries ''videos'')"
    by blast
  moreover from inst a
  have "\<exists>n \<in> set (os_listdir videos_entries). ''videos/a.MP4'' = os_path_join ''videos'' n \<and>
        (\<exists>e \<in> {''.mp4'', ''.avi'', ''.mov'', ''.mkv'', ''.wmv'', ''.flv''}. suffix e (lower n))"
    by blast
  moreover from names have "list_all entry_name_ok (os_listdir videos_entries)"
    by (simp only: list_all_iff)
  ultimately show ?thesis
    using found joined by simp
qed

text \<open>
  C7: the output path of the extractor is the source path without its extension (what
  \<open>os.path.splitext\<close> splits off), followed by \<open>_first_frame.png\<close>; it lies in the
  directory of the source; and a file of that name that exists already is overwritten
  silently. Whenever the extractor returns a path it is that one; root and extension
  make up the source path; both paths have the same directory part; for a candidate
  whose name is \<open>stem.ext\<close>, with a stem that is not made of dots only, the root is the
  directory joined with the stem; and when the session opens, a frame is read and
  \<open>imwrite\<close> reports success, the file at the output path holds the new frame whatever
  the files were before, and nothing is logged.
\<close>

theorem output_path_beside_source:
  "(fst (extract_first_frame cv p) = Returns (Some out) \<longrightarrow>
      out = fst (os_path_splitext p) @ ''_first_frame.png'')
   \<and> fst (os_path_splitext p) @ snd (os_path_splitext p) = p
   \<and> dir_part (fst (os_path_splitext p) @ ''_first_frame.png'') = dir_part p
   \<and> (entry_name_ok (stem @ ''.'' @ ext) \<and> CHR ''.'' \<notin> set ext \<and>
        (\<exists>c \<in> set stem. c \<noteq> CHR ''.'') \<longrightarrow>
        os_path_splitext (os_path_join d (stem @ ''.'' @ ext)) =
          (os_path_join d stem, ''.'' @ ext))
   \<and> (cv_VideoCapture cv p = Returns () \<and> cv_isOpened cv p = Returns True \<and>
        cv_read cv p = Returns (True, fr) \<and>
        cv_imwrite cv (first_frame_path p) fr = Returns True \<and>
        cv_release cv p = Returns () \<longrightarrow>
        fst (extract_first_frame cv p) = Returns (Some (first_frame_path p)) \<and>
        files_after cv files (snd (extract_first_frame cv p)) (first_frame_path p) = Some fr \<and>
        \<not> list_ex is_Log (snd (extract_first_frame cv p)))"
proof (intro conjI impI)
  assume "fst (extract_first_frame cv p) = Returns (Some out)"
  then show "out = fst (os_path_splitext p) @ ''_first_frame.png''"
    using extract_result_path [of cv p out] by (simp add: first_frame_path_def)
next
  show "fst (os_path_splitext p) @ snd (os_path_splitext p) = p"
    by (rule splitext_append)
next
  show "dir_part (fst (os_path_splitext p) @ ''_first_frame.png'') = dir_part p"
    by (rule dir_part_first_frame_path)
next
  assume "entry_name_ok (stem @ ''.'' @ ext) \<and> CHR ''.'' \<notin> set ext \<and>
      (\<exists>c \<in> set stem. c \<noteq> CHR ''.'')"
  then show "os_path_splitext (os_path_join d (stem @ ''.'' @ ext)) =
      (os_path_join d stem, ''.'' @ ext)"
    using splitext_ordinary_name [of stem ext d] by blast
next
  assume ok: "cv_VideoCapture cv p = Returns () \<and> cv_isOpened cv p = Returns True \<and>
      cv_read cv p = Returns (True, fr) \<and>
      cv_imwrite cv (first_frame_path p) fr = Returns True \<and>
      cv_release cv p = Returns ()"
  then have run: "extract_first_frame cv p =
      (Returns (Some (first_frame_path p)),
       [CapNew p, CapIsOpened p, CapRead p, ImWrite (first_frame_path p) fr, CapRelease p])"
    using extract_success [of cv p fr True] by blast
  then show "fst (extract_first_frame cv p) = Returns (Some (first_frame_path p))"
    by simp
  from run ok show "files_after cv files (snd (extract_first_frame cv p)) (first_frame_path p) =
      Some fr"
    by (simp add: files_after_def)
  from run show "\<not> list_ex is_Log (snd (extract_first_frame cv p))"
    by simp
qed

theorem output_path_beside_source_witness:
  "fst (extract_first_frame cv_plain ''videos/a.MP4'') = Returns (Some ''videos/a_first_frame.png'')
   \<and> ''videos/a_first_frame.png'' = fst (os_path_splitext ''videos/a.MP4'') @ ''_first_frame.png''
   \<and> os_path_join ''videos'' (''a'' @ ''.'' @ ''MP4'') = ''videos/a.MP4''
   \<and> os_path_splitext (os_path_join ''videos'' (''a'' @ ''.'' @ ''MP4'')) =
        (os_path_join ''videos'' ''a'', ''.'' @ ''MP4'')
   \<and> [''videos/a_first_frame.png'' \<mapsto> [9]] ''videos/a_first_frame.png'' = Some [9]
   \<and> files_after cv_plain [''videos/a_first_frame.png'' \<mapsto> [9]]
        (snd (extract_first_frame cv_plain ''videos/a.MP4'')) ''videos/a_first_frame.png'' =
        Some [1, 2, 3]
   \<and> \<not> list_ex is_Log (snd (extract_first_frame cv_plain ''videos/a.MP4''))"
proof -
  note inst = output_path_beside_source [where cv = cv_plain and p = "''videos/a.MP4''"
      and out = "''videos/a_first_frame.png''" and stem = "''a''" and ext = "''MP4''"
      and d = "''videos''" and fr = "[1, 2, 3]"
      and files = "[''videos/a_first_frame.png'' \<mapsto> [9]]"]
  have result: "fst (extract_first_frame cv_plain ''videos/a.MP4'') =
      Returns (Some ''videos/a_first_frame.png'')"
    by (simp add: extract_plain_a)
  have name: "entry_name_ok (''a'' @ ''.'' @ ''MP4'') \<and> CHR ''.'' \<notin> set ''MP4'' \<and>
      (\<exists>c \<in> set ''a''. c \<noteq> CHR ''.'')"
    by (simp add: entry_name_ok_def)
  have calls: "cv_VideoCapture cv_plain ''videos/a.MP4'' = Returns () \<and>
      cv_isOpened cv_plain ''videos/a.MP4'' = Returns True \<and>
      cv_read cv_plain ''videos/a.MP4'' = Returns (True, [1, 2, 3]) \<and>
      cv_imwrite cv_plain (first_frame_path ''videos/a.MP4'') [1, 2, 3] = Returns True \<and>
      cv_release cv_plain ''videos/a.MP4'' = Returns ()"
    by (simp add: cv_plain_def)
  from inst result
  have "''videos/a_first_frame.png'' = fst (os_path_splitext ''videos/a.MP4'') @ ''_first_frame.png''"
    by blast
  moreover from inst name
  have "os_path_splitext (os_path_join ''videos'' (''a'' @ ''.'' @ ''MP4'')) =
        (os_path_join ''videos'' ''a'', ''.'' @ ''MP4'')"
    by blast
  moreover from inst calls
  have "files_after cv_plain [''videos/a_first_frame.png'' \<mapsto> [9]]
        (snd (extract_first_frame cv_plain ''videos/a.MP4'')) (first_frame_path ''videos/a.MP4'') =
        Some [1, 2, 3]
      \<and> \<not> list_ex is_Log (snd (extract_first_frame cv_plain ''videos/a.MP4''))"
    by blast
  moreover have "os_path_join ''videos'' (''a'' @ ''.'' @ ''MP4'') = ''videos/a.MP4''"
    by (simp add: os_path_join_def)
  ultimately show ?thesis
    using result by (simp add: videos_output_paths)
qed

text \<open>
  C8 says that the orchestrator calls the extractor on every candidate, once and in
  order, whatever fails, and then logs the summary. In the directory \<open>videos\<close>, with a
  library whose constructor raises on the first candidate, the error leaves the
  extractor and the loop: the run ends with \<open>UnboundLocalError\<close>, the two other
  candidates are never passed to the extractor, and no summary is logged.
\<close>

theorem escaped_error_ends_the_loop:
  "get_video_files (dir_entries fs_videos ''videos'') ''videos'' =
     [''videos/a.MP4'', ''videos/b.mp4'', ''videos/clips.mkv'']
   \<and> extractor_calls (snd (main host_ready fs_videos cv_ctor_raises ''videos'')) =
        [''videos/a.MP4'']
   \<and> main host_ready fs_videos cv_ctor_raises ''videos'' =
        (Raises (UnboundLocalError ''video_capture''),
         [Import ''opencv_python'',
          Log INFO (Text ''Installing required package: opencv-python''),
          PipInstall ''opencv-python'', Import ''tqdm'', Import ''tqdm'',
          Log INFO (FoundVideos 3),
          CapNew ''videos/a.MP4'',
          Log ERROR (Text ''Error processing videos/a.MP4: cannot convert filename'')])"
proof -
  have run: "main host_ready fs_videos cv_ctor_raises ''videos'' =
        (Raises (UnboundLocalError ''video_capture''),
         [Import ''opencv_python'',
          Log INFO (Text ''Installing required package: opencv-python''),
          PipInstall ''opencv-python'', Import ''tqdm'', Import ''tqdm'',
          Log INFO (FoundVideos 3),
          CapNew ''videos/a.MP4'',
          Log ERROR (Text ''Error processing videos/a.MP4: cannot convert filename'')])"
    by (simp add: main_def dependencies_ready validate_videos videos_candidates
        extract_ctor_raises_a emitting_def)
  then show ?thesis
    by (simp add: videos_candidates extractor_calls_def)
qed

text \<open>
  C9 says that a run reads only the video files of the target directory and writes only
  their images, and does nothing else to files or the network. The dependency check at
  the start installs packages: on a host where the import of \<open>opencv_python\<close> fails, the
  run launches \<open>pip install opencv-python\<close>, which the contract does not permit.
\<close>

theorem run_installs_packages:
  "\<not> import_ok host_ready ''opencv_python''
   \<and> PipInstall ''opencv-python'' \<in> set (snd (main host_ready fs_videos cv_plain ''videos''))
   \<and> \<not> list_all (run_io_permitted (get_video_files (dir_entries fs_videos ''videos'') ''videos''))
        (snd (main host_ready fs_videos cv_plain ''videos''))"
proof -
  have "\<not> import_ok host_ready ''opencv_python''"
    by (simp add: host_ready_def)
  then show ?thesis
    by (simp add: main_plain videos_candidates)
qed

text \<open>
  C9, amended: apart from the dependency check at the start, which runs \<open>pip install\<close>
  in a subprocess for each required package whose import fails, a run only logs, imports
  modules, calls the video library on the captures of the discovered candidates, and
  writes the image of a candidate; every candidate is the join of the target directory
  with a name of its listing, and every image lies in the directory of its candidate.
  Nothing else is read or written, and no other process or connection is started.
\<close>

theorem run_effects_confined:
  "(\<forall>ev \<in> set (snd (main h fs cv d)).
      run_io_permitted (get_video_files (dir_entries fs d) d) ev \<or>
      (\<exists>pkg \<in> set required_packages. ev = PipInstall pkg \<and> \<not> import_ok h (replace_dash pkg)))
   \<and> (\<forall>p \<in> set (get_video_files (dir_entries fs d) d).
        (\<exists>n \<in> set (os_listdir (dir_entries fs d)). p = os_path_join d n) \<and>
        dir_part (first_frame_path p) = dir_part p)"
proof (intro conjI ballI)
  fix ev assume "ev \<in> set (snd (main h fs cv d))"
  from main_event_cases [OF this]
  show "run_io_permitted (get_video_files (dir_entries fs d) d) ev \<or>
      (\<exists>pkg \<in> set required_packages. ev = PipInstall pkg \<and> \<not> import_ok h (replace_dash pkg))"
    by (auto simp: extract_event_def)
next
  fix p assume "p \<in> set (get_video_files (dir_entries fs d) d)"
  then show "\<exists>n \<in> set (os_listdir (dir_entries fs d)). p = os_path_join d n"
    by (auto simp: get_video_files_eq os_listdir_def)
next
  fix p
  show "dir_part (first_frame_path p) = dir_part p"
    using dir_part_first_frame_path [of p] by (simp add: first_frame_path_def)
qed

theorem run_effects_confined_witness:
  "ImWrite ''videos/a_first_frame.png'' [1, 2, 3]
     \<in> set (snd (main host_ready fs_videos cv_plain ''videos''))
   \<and> ''videos/a.MP4'' \<in> set (get_video_files (dir_entries fs_videos ''videos'') ''videos'')
   \<and> run_io_permitted (get_video_files (dir_entries fs_videos ''videos'') ''videos'')
        (ImWrite ''videos/a_first_frame.png'' [1, 2, 3])
   \<and> (\<exists>n \<in> set (os_listdir (dir_entries fs_videos ''videos'')).
        ''videos/a.MP4'' = os_path_join ''videos'' n)
   \<and> dir_part (first_frame_path ''videos/a.MP4'') = dir_part ''videos/a.MP4''"
proof -
  have written: "ImWrite ''videos/a_first_frame.png'' [1, 2, 3]
      \<in> set (snd (main host_ready fs_videos cv_plain ''videos''))"
    by (simp add: main_plain)
  have cand: "''videos/a.MP4'' \<in> set (get_video_files (dir_entries fs_videos ''videos'') ''videos'')"
    by (simp add: videos_candidates)
  note inst = run_effects_confined [of host_ready fs_videos cv_plain "''videos''"]
  from inst written
  have "run_io_permitted (get_video_files (dir_entries fs_videos ''videos'') ''videos'')
        (ImWrite ''videos/a_first_frame.png'' [1, 2, 3])
      \<or> (\<exists>pkg \<in> set required_packages.
          ImWrite ''videos/a_first_frame.png'' [1, 2, 3] = PipInstall pkg \<and>
          \<not> import_ok host_ready (replace_dash pkg))"
    by blast
  then have "run_io_permitted (get_video_files (dir_entries fs_videos ''videos'') ''videos'')
        (ImWrite ''videos/a_first_frame.png'' [1, 2, 3])"
    by simp
  moreover from inst cand
  have "(\<exists>n \<in> set (os_listdir (dir_entries fs_videos ''videos'')).
        ''videos/a.MP4'' = os_path_join ''videos'' n)
      \<and> dir_part (first_frame_path ''videos/a.MP4'') = dir_part ''videos/a.MP4''"
    by blast
  ultimately show ?thesis
    using written cand by blast
qed

text \<open>
  C10: discovery applies a lexical suffix test to each name of the listing and nothing
  else. The result is exactly the listed names whose lowercase form ends with a
  recognized video suffix, in the order of the listing, each joined with the directory.
  So every entry with such a name is returned, whatever kind of entry it is (a
  subdirectory or another non-file entry too); with names as a file system gives them,
  an entry is returned if and only if its name passes the test; and two directories with
  the same names give the same result, whatever the kinds of their entries.
\<close>

theorem discovery_ignores_entry_kind:
  "get_video_files entries d =
     map (os_path_join d)
       (filter (\<lambda>n. \<exists>e \<in> set video_extensions. suffix e (lower n)) (os_listdir entries))
   \<and> (\<forall>(n, k) \<in> set entries.
        (\<exists>e \<in> set video_extensions. suffix e (lower n)) \<longrightarrow>
        os_path_join d n \<in> set (get_video_files entries d))
   \<and> ((\<forall>m \<in> set (os_listdir entries). entry_name_ok m) \<longrightarrow>
        (\<forall>(n, k) \<in> set entries.
           os_path_join d n \<in> set (get_video_files entries d) \<longleftrightarrow>
           (\<exists>e \<in> set video_extensions. suffix e (lower n))))
   \<and> (os_listdir entries = os_listdir entries' \<longrightarrow>
        get_video_files entries d = get_video_files entries' d)"
proof (intro conjI impI)
  show eq: "get_video_files entries d =
     map (os_path_join d)
       (filter (\<lambda>n. \<exists>e \<in> set video_extensions. suffix e (lower n)) (os_listdir entries))"
    by (simp add: get_video_files_eq os_listdir_def endswith_iff)
  show "\<forall>(n, k) \<in> set entries.
        (\<exists>e \<in> set video_extensions. suffix e (lower n)) \<longrightarrow>
        os_path_join d n \<in> set (get_video_files entries d)"
    by (force simp: eq os_listdir_def)
next
  assume ok: "\<forall>m \<in> set (os_listdir entries). entry_name_ok m"
  show "\<forall>(n, k) \<in> set entries.
           os_path_join d n \<in> set (get_video_files entries d) \<longleftrightarrow>
           (\<exists>e \<in> set video_extensions. suffix e (lower n))"
  proof (intro ballI, clarify)
    fix n k assume entry: "(n, k) \<in> set entries"
    then have n: "n \<in> set (os_listdir entries)"
      by (force simp: os_listdir_def)
    show "os_path_join d n \<in> set (get_video_files entries d) \<longleftrightarrow>
        (\<exists>e \<in> set video_extensions. suffix e (lower n))"
    proof
      assume "os_path_join d n \<in> set (get_video_files entries d)"
      then obtain m where m: "m \<in> set (os_listdir entries)"
          "endswith (lower m) video_extensions" "os_path_join d n = os_path_join d m"
        by (auto simp: get_video_files_eq os_listdir_def)
      with ok n have "n = m"
        using os_path_join_inj [of n m d] by blast
      with m(2) show "\<exists>e \<in> set video_extensions. suffix e (lower n)"
        by (simp add: endswith_iff)
    next
      assume "\<exists>e \<in> set video_extensions. suffix e (lower n)"
      with n show "os_path_join d n \<in> set (get_video_files entries d)"
        by (auto simp: get_video_files_eq os_listdir_def endswith_iff)
    qed
  qed
next
  assume "os_listdir entries = os_listdir entries'"
  then show "get_video_files entries d = get_video_files entries' d"
    by (simp add: get_video_files_def)
qed

theorem discovery_ignores_entry_kind_witness:
  "(''clips.mkv'', Directory) \<in> set videos_entries
   \<and> (''notes.txt'', RegularFile) \<in> set videos_entries
   \<and> list_all entry_name_ok (os_listdir videos_entries)
   \<and> suffix ''.mkv'' (lower ''clips.mkv'')
   \<and> os_path_join ''videos'' ''clips.mkv'' = ''videos/clips.mkv''
   \<and> ''videos/clips.mkv'' \<in> set (get_video_files videos_entries ''videos'')
   \<and> os_path_join ''videos'' ''notes.txt'' = ''videos/notes.txt''
   \<and> \<not> (\<exists>e \<in> set video_extensions. suffix e (lower ''notes.txt''))
   \<and> ''videos/notes.txt'' \<notin> set (get_video_files videos_entries ''videos'')
   \<and> get_video_files videos_entries ''videos'' =
        map (os_path_join ''videos'')
          (filter (\<lambda>n. \<exists>e \<in> set video_extensions. suffix e (lower n))
            (os_listdir videos_entries))
   \<and> os_listdir videos_entries = os_listdir (map (\<lambda>(n, k). (n, RegularFile)) videos_entries)
   \<and> get_video_files videos_entries ''videos'' =
        get_video_files (map (\<lambda>(n, k). (n, RegularFile)) videos_entries) ''videos''"
proof -
  note inst = discovery_ignores_entry_kind [of videos_entries "''videos''"
      "map (\<lambda>(n, k). (n, RegularFile)) videos_entries"]
  have clips: "(''clips.mkv'', Directory) \<in> set videos_entries"
    and other: "(''notes.txt'', RegularFile) \<in> set videos_entries"
    by (simp_all add: videos_entries_def)
  have names: "\<forall>m \<in> set (os_listdir videos_entries). entry_name_ok m"
    by (simp add: os_listdir_def videos_entries_def entry_name_ok_def)
  have "endswith1 (lower ''clips.mkv'') ''.mkv''"
    by (simp add: endswith1_def lower_def lower_char_def)
  then have suf: "suffix ''.mkv'' (lower ''clips.mkv'')"
    by (simp only: endswith1_suffix)
  then have passes: "\<exists>e \<in> set video_extensions. suffix e (lower ''clips.mkv'')"
    by (simp add: video_extensions_def)
  have "\<not> endswith (lower ''notes.txt'') video_extensions"
    by (simp add: endswith_def endswith1_def lower_def lower_char_def video_extensions_def)
  then have fails: "\<not> (\<exists>e \<in> set video_extensions. suffix e (lower ''notes.txt''))"
    by (simp add: endswith_iff)
  have same: "os_listdir videos_entries =
      os_listdir (map (\<lambda>(n, k). (n, RegularFile)) videos_entries)"
    by (simp add: os_listdir_def videos_entries_def)
  have joins: "os_path_join ''videos'' ''clips.mkv'' = ''videos/clips.mkv''"
      "os_path_join ''videos'' ''notes.txt'' = ''videos/notes.txt''"
    by (simp_all add: os_path_join_def)
  from inst clips passes
  have "os_path_join ''videos'' ''clips.mkv'' \<in> set (get_video_files videos_entries ''videos'')"
    by blast
  moreover from inst names other fails
  have "os_path_join ''videos'' ''notes.txt'' \<notin> set (get_video_files videos_entries ''videos'')"
    by blast
  moreover from inst
  have "get_video_files videos_entries ''videos'' =
        map (os_path_join ''videos'')
          (filter (\<lambda>n. \<exists>e \<in> set video_extensions. suffix e (lower n))
            (os_listdir videos_entries))"
    by blast
  moreover from inst same
  have "get_video_files videos_entries ''videos'' =
        get_video_files (map (\<lambda>(n, k). (n, RegularFile)) videos_entries) ''videos''"
    by blast
  moreover from names have "list_all entry_name_ok (os_listdir videos_entries)"
    by (simp only: list_all_iff)
  ultimately show ?thesis
    using clips other suf fails same joins by simp
qed

end
